theory Spec2Isabelle
  imports Main "HOL-Library.Sublist" "HOL-Library.Word"
begin

section \<open>Values exchanged with the environment\<close>

text \<open>
  The orchestration of \<open>generatePlate\<close> talks to three collaborators: the browser
  (image decoding and the canvas), the remote model (\<open>ai.models.generateContent\<close>) and the
  optional progress callback. Their answers are inputs of the model; what the code sends to
  them is recorded in a trace.

  Strings are \<open>char list\<close>: a JavaScript string stands for the bytes of its UTF-8 encoding.
  Every character the code searches for (comma, semicolon, the letters of \<open>data:\<close> and
  \<open>YES\<close>, the ASCII letters and digits) is ASCII, and an ASCII byte occurs in UTF-8 text
  only as that character, so \<open>split\<close>, \<open>match\<close>, \<open>includes\<close> and the filter of \<open>cleanText\<close>
  give on the bytes what the code computes on the string.

  The methods \<open>trim\<close> and \<open>toUpperCase\<close> on arbitrary text follow the Unicode tables of the
  JavaScript engine (\<open>toUpperCase\<close> turns U+00DF into \<open>SS\<close>, \<open>trim\<close> strips U+00A0). They
  are not rebuilt here: the detector, which applies them to the raw answer of the model,
  takes them as a parameter, and everything proved holds for every choice of them.
\<close>

type_synonym byte = "8 word"

text \<open>A value that reaches a \<open>catch\<close> clause or rejects a promise; the code reads only its
  \<open>message\<close> property, which may be missing.\<close>

datatype thrown = Thrown (message: "string option")

datatype 'a outcome = Throws thrown | Returns 'a

datatype inline_data = InlineData (data: "string option") (declared_mime: "string option")

datatype part = Part (inlineData: "inline_data option") (part_text: "string option")

datatype content = Content (parts: "part list option")

datatype candidate = Candidate (content: "content option")

datatype response = Response (response_text: "string option") (candidates: "candidate list option")

record request =
  model :: string
  inline_payload :: "string option"
  inline_mime :: string
  prompt :: string

datatype event = Progress string | Call request "response outcome"

text \<open>The remote model: the answer to the \<open>n\<close>-th call (counted from 0) for a given request.\<close>

type_synonym service = "nat \<Rightarrow> request \<Rightarrow> response outcome"

fun is_call :: "event \<Rightarrow> bool" where
  "is_call (Call _ _) = True"
| "is_call (Progress _) = False"

definition calls :: "event list \<Rightarrow> event list" where
  "calls tr = filter is_call tr"

definition generateContent :: "service \<Rightarrow> request \<Rightarrow> event list \<Rightarrow> response outcome \<times> event list" where
  "generateContent svc req tr = (let r = svc (length (calls tr)) req in (r, tr @ [Call req r]))"

text \<open>\<open>if (onProgress) onProgress(status)\<close>; the callback is assumed not to throw.\<close>

definition report :: "bool \<Rightarrow> string \<Rightarrow> event list \<Rightarrow> event list" where
  "report onProgress status tr = (if onProgress then tr @ [Progress status] else tr)"

section \<open>String helpers of the JavaScript library\<close>

definition isAlnum :: "char \<Rightarrow> bool" where
  "isAlnum c = (let n = (of_char c :: nat) in
      (97 \<le> n \<and> n \<le> 122) \<or> (65 \<le> n \<and> n \<le> 90) \<or> (48 \<le> n \<and> n \<le> 57))"

text \<open>The upper-case form of one ASCII character: \<open>a\<close> to \<open>z\<close> become \<open>A\<close> to \<open>Z\<close>, every
  other ASCII character is kept.\<close>

definition upperChar :: "char \<Rightarrow> char" where
  "upperChar c = (let n = (of_char c :: nat) in
      if 97 \<le> n \<and> n \<le> 122 then char_of (n - 32) else c)"

text \<open>\<open>String.prototype.trim\<close> and \<open>String.prototype.toUpperCase\<close> of the engine, on
  arbitrary text.\<close>

record string_methods =
  trim :: "string \<Rightarrow> string"
  toUpperCase :: "string \<Rightarrow> string"

text \<open>\<open>hay.includes(needle)\<close>: the needle starts at some position of the hay.\<close>

fun str_includes :: "string \<Rightarrow> string \<Rightarrow> bool" where
  "str_includes [] needle = (needle = [])"
| "str_includes (c # cs) needle = (prefix needle (c # cs) \<or> str_includes cs needle)"

text \<open>\<open>s.split(',')[1]\<close>: the piece between the first and the second comma, \<open>undefined\<close>
  when there is no comma.\<close>

definition split_second :: "string \<Rightarrow> string option" where
  "split_second s =
     (case dropWhile (\<lambda>c. c \<noteq> CHR '','') s of
        [] \<Rightarrow> None
      | _ # rest \<Rightarrow> Some (takeWhile (\<lambda>c. c \<noteq> CHR '','') rest))"

text \<open>\<open>s.match(/data:([^;]+);/)?.[1]\<close>: at the leftmost position where \<open>data:\<close> is followed
  by a non-empty run without semicolon and then a semicolon, that run.\<close>

definition match_here :: "string \<Rightarrow> string option" where
  "match_here s =
     (if prefix ''data:'' s then
        (let rest = drop 5 s;
             m = takeWhile (\<lambda>c. c \<noteq> CHR '';'') rest;
             after = dropWhile (\<lambda>c. c \<noteq> CHR '';'') rest
         in if m \<noteq> [] \<and> after \<noteq> [] then Some m else None)
      else None)"

fun match_mime :: "string \<Rightarrow> string option" where
  "match_mime [] = None"
| "match_mime (c # cs) =
     (case match_here (c # cs) of Some m \<Rightarrow> Some m | None \<Rightarrow> match_mime cs)"

definition mime_or :: "string \<Rightarrow> string \<Rightarrow> string" where
  "mime_or s dflt = (case match_mime s of Some m \<Rightarrow> m | None \<Rightarrow> dflt)"

fun decimal :: "nat \<Rightarrow> string" where
  "decimal n = (if n < 10 then [char_of (48 + n)] else decimal (n div 10) @ [char_of (48 + n mod 10)])"

section \<open>cleanText\<close>

text \<open>\<open>text.replace(/[^a-zA-Z0-9]/g, '').toUpperCase()\<close>: the replacement leaves ASCII
  letters and digits only, and on such a string \<open>toUpperCase\<close> works character by
  character, as \<open>upperChar\<close> does.\<close>

definition cleanText :: "string \<Rightarrow> string" where
  "cleanText t = map upperChar (filter isAlnum t)"

section \<open>preprocessImage\<close>

text \<open>
  What the browser does with one image: \<open>onerror\<close> fires, or \<open>onload\<close> fires and the canvas
  calls of the handler each return or throw. \<open>getContext\<close> stands for the creation of the
  canvas and the request for its 2D context; it returns \<open>False\<close> for a null context.
\<close>

record canvas =
  getContext :: "bool outcome"
  drawImage :: "unit outcome"
  getImageData :: "byte list outcome"
  toDataURL :: "string outcome"

datatype image_load = OnError | OnLoad canvas

definition transparent_message :: string where
  "transparent_message =
     ''Transparent images are not supported due to rendering bugs. Please upload an image with a solid background.''"

text \<open>\<open>for (let i = 3; i < data.length; i += 16) if (data[i] < 250) ...\<close>: whether the loop
  started at index \<open>i\<close> finds a sampled byte below 250.\<close>

function alpha_scan :: "byte list \<Rightarrow> nat \<Rightarrow> bool" where
  "alpha_scan d i =
     (if i < length d then (if d ! i < 250 then True else alpha_scan d (i + 16)) else False)"
  by pat_completeness auto
termination
  by (relation "measure (\<lambda>(d, i). length d - i)") auto

declare alpha_scan.simps [simp del]

definition reencode :: "canvas \<Rightarrow> string \<Rightarrow> thrown + string" where
  "reencode cv base64Str =
     (case toDataURL cv of Throws e \<Rightarrow> Inr base64Str | Returns jpegData \<Rightarrow> Inr jpegData)"

text \<open>The first argument is \<open>None\<close> when \<open>window\<close> or \<open>document\<close> is undefined.\<close>

definition preprocessImage :: "(string \<Rightarrow> image_load) option \<Rightarrow> string \<Rightarrow> thrown + string" where
  "preprocessImage surface base64Str =
     (case surface of
        None \<Rightarrow> Inr base64Str
      | Some load \<Rightarrow>
         (case load base64Str of
            OnError \<Rightarrow> Inr base64Str
          | OnLoad cv \<Rightarrow>
             (case getContext cv of
                Throws e \<Rightarrow> Inr base64Str
              | Returns ctx \<Rightarrow>
                 if \<not> ctx then Inr base64Str
                 else (case drawImage cv of
                    Throws e \<Rightarrow> Inr base64Str
                  | Returns u \<Rightarrow>
                     (case getImageData cv of
                        Throws e \<Rightarrow> reencode cv base64Str
                      | Returns d \<Rightarrow>
                         if alpha_scan d 3 then Inl (Thrown (Some transparent_message))
                         else reencode cv base64Str)))))"

section \<open>checkForExistingPlate\<close>

definition detect_prompt :: string where
  "detect_prompt =
     ''Analyze the front and rear bumpers of the car in this image. Look specifically for an oblong, rectangular, or square object mounted on the bumper where a license plate is typically found. Is there a license plate present? Answer strictly with YES or NO.''"

definition detect_request :: "string \<Rightarrow> request" where
  "detect_request imageBase64 =
     (let base64Data = split_second imageBase64;
          mimeType = mime_or imageBase64 ''image/jpeg''
      in \<lparr>model = ''gemini-2.5-flash'', inline_payload = base64Data,
          inline_mime = mimeType, prompt = detect_prompt\<rparr>)"

text \<open>The \<open>catch\<close> clause is the \<open>Throws\<close> branch: the function has no way to fail.\<close>

definition checkForExistingPlate ::
  "string_methods \<Rightarrow> service \<Rightarrow> string \<Rightarrow> event list \<Rightarrow> bool \<times> event list" where
  "checkForExistingPlate js svc imageBase64 tr =
     (let (r, tr') = generateContent svc (detect_request imageBase64) tr
      in case r of
           Throws e \<Rightarrow> (False, tr')
         | Returns response \<Rightarrow>
            (let text = (case response_text response of
                           None \<Rightarrow> []
                         | Some t \<Rightarrow> toUpperCase js (trim js t))
             in (str_includes text ''YES'', tr')))"

section \<open>verifyPlateContent\<close>

definition verify_prompt :: string where
  "verify_prompt =
     ''Read the license plate text from this car. Return ONLY the alphanumeric characters found on the plate. Ignore country names, slogans, or small print.''"

text \<open>
  The comparison \<open>ocrText.length > expected.length * 0.8\<close> is between an integer \<open>m\<close> and
  the double nearest to \<open>n * 0.8\<close>. The double written \<open>0.8\<close> is \<open>0.8 * (1 + 2^-54)\<close>, so
  for a multiple of five \<open>n = 5k\<close> the product lies below the midpoint of \<open>4k\<close> and the next
  double and rounds to \<open>4k\<close>; for any other \<open>n\<close> the rational \<open>4n/5\<close> is at least \<open>1/5\<close> away
  from every integer and the rounding error is far smaller. For string lengths the test is
  therefore \<open>5 * m > 4 * n\<close> on the integers.
\<close>

definition plate_match :: "string \<Rightarrow> string \<Rightarrow> bool" where
  "plate_match ocrText expected =
     (str_includes ocrText expected \<or>
      (str_includes expected ocrText \<and> 4 * length expected < 5 * length ocrText))"

definition verify_request :: "string \<Rightarrow> request" where
  "verify_request imageBase64 =
     (let base64Data = split_second imageBase64;
          mimeType = mime_or imageBase64 ''image/png''
      in \<lparr>model = ''gemini-2.5-flash'', inline_payload = base64Data,
          inline_mime = mimeType, prompt = verify_prompt\<rparr>)"

definition verifyPlateContent :: "service \<Rightarrow> string \<Rightarrow> string \<Rightarrow> event list \<Rightarrow> bool \<times> event list" where
  "verifyPlateContent svc imageBase64 expectedNumber tr =
     (let (r, tr') = generateContent svc (verify_request imageBase64) tr
      in case r of
           Throws e \<Rightarrow> (False, tr')
         | Returns response \<Rightarrow>
            (let ocrText = (case response_text response of
                              None \<Rightarrow> []
                            | Some t \<Rightarrow> if t \<noteq> [] then cleanText t else []);
                 expected = cleanText expectedNumber
             in (plate_match ocrText expected, tr')))"

section \<open>generatePlate\<close>

datatype mode = Add | Replace

record plate_args =
  imageBase64 :: string
  plateNumber :: string
  plateCountry :: string
  mode :: mode
  onProgress :: bool
  skipDetection :: bool

text \<open>The module constant \<open>apiKey\<close> (\<open>process.env.API_KEY\<close>), the string methods of the
  engine, the browser and the remote model.\<close>

record environment =
  apiKey :: "string option"
  strings :: string_methods
  browser :: "(string \<Rightarrow> image_load) option"
  ai :: service

definition MAX_RETRIES :: nat where
  "MAX_RETRIES = 4"

definition missing_key_message :: string where
  "missing_key_message = ''API Key is missing in environment variables.''"

definition confirmation_message :: string where
  "confirmation_message = ''PLATE_DETECTED_CONFIRMATION''"

definition no_image_message :: string where
  "no_image_message = ''No image was returned by the model.''"

definition exhausted_message :: string where
  "exhausted_message = ''Failed to generate valid image after multiple attempts''"

definition progress_status :: "nat \<Rightarrow> string" where
  "progress_status attempt =
     (if 1 < attempt
      then ''Refining details (Attempt '' @ decimal attempt @ ''/'' @ decimal MAX_RETRIES @ '')...''
      else ''Generating plate...'')"

definition action_prompt :: "mode \<Rightarrow> string \<Rightarrow> string" where
  "action_prompt m country =
     (if m = Add
      then ''The car in this image does not have a license plate. Add a realistic '' @ country
           @ '' license plate to the front bumper (or rear bumper if the rear is visible).''
      else ''Replace the existing license plate on the car with a realistic '' @ country
           @ '' license plate.'')"

definition generation_prompt :: "mode \<Rightarrow> string \<Rightarrow> string \<Rightarrow> string" where
  "generation_prompt m country number =
     ''Edit this image. '' @ action_prompt m country @ [CHR 0x0A]
     @ ''      The license plate text must be strictly '' @ [CHR 0x22] @ number @ [CHR 0x22]
     @ ''. '' @ [CHR 0x0A]
     @ ''      Ensure the text is sharp, legible, and perfectly spelled.'' @ [CHR 0x0A]
     @ ''      Maintain the exact perspective, lighting, shadows, and reflection of the original car and bumper. ''
     @ [CHR 0x0A]
     @ ''      Do not modify any other part of the car or the background. High quality, photorealistic.''"

text \<open>The scan of \<open>parts\<close> for the first part with a non-empty inline payload; the result
  is \<open>generatedImageUrl\<close>, empty when no part has one.\<close>

fun first_inline_image :: "part list \<Rightarrow> string" where
  "first_inline_image [] = []"
| "first_inline_image (p # ps) =
     (case inlineData p of
        None \<Rightarrow> first_inline_image ps
      | Some d \<Rightarrow>
         (case data d of
            None \<Rightarrow> first_inline_image ps
          | Some b \<Rightarrow> if b \<noteq> [] then ''data:image/png;base64,'' @ b else first_inline_image ps))"

text \<open>\<open>response.candidates?.[0]?.content?.parts\<close>\<close>

definition first_parts :: "response \<Rightarrow> part list option" where
  "first_parts r =
     (case candidates r of
        None \<Rightarrow> None
      | Some cs \<Rightarrow>
         (case cs of
            [] \<Rightarrow> None
          | c # _ \<Rightarrow> (case content c of None \<Rightarrow> None | Some ct \<Rightarrow> parts ct)))"

definition extract_image :: "response \<Rightarrow> string" where
  "extract_image r = (case first_parts r of None \<Rightarrow> [] | Some ps \<Rightarrow> first_inline_image ps)"

text \<open>How one pass through the \<open>try\<close> block of the loop ends: by \<open>return\<close>, at the end of
  the block after a failed verification, or in the \<open>catch\<close> clause.\<close>

datatype attempt = Verified string | Unverified string | Failed thrown

definition generation_request :: "plate_args \<Rightarrow> string option \<Rightarrow> string \<Rightarrow> request" where
  "generation_request args base64Data mimeType =
     \<lparr>model = ''gemini-2.5-flash-image'', inline_payload = base64Data, inline_mime = mimeType,
      prompt = generation_prompt (mode args) (plateCountry args) (plateNumber args)\<rparr>"

definition attempt_body ::
  "service \<Rightarrow> plate_args \<Rightarrow> string option \<Rightarrow> string \<Rightarrow> nat \<Rightarrow> event list \<Rightarrow> attempt \<times> event list" where
  "attempt_body svc args base64Data mimeType attempt tr =
     (let tr1 = report (onProgress args) (progress_status attempt) tr;
          (r, tr2) = generateContent svc (generation_request args base64Data mimeType) tr1
      in case r of
           Throws e \<Rightarrow> (Failed e, tr2)
         | Returns response \<Rightarrow>
            (let generatedImageUrl = extract_image response
             in if generatedImageUrl = [] then (Failed (Thrown (Some no_image_message)), tr2)
                else (let tr3 = report (onProgress args) ''Verifying plate text...'' tr2;
                          (isPerfect, tr4) =
                             verifyPlateContent svc generatedImageUrl (plateNumber args) tr3
                      in if isPerfect then (Verified generatedImageUrl, tr4)
                         else (Unverified generatedImageUrl, tr4))))"

text \<open>\<open>lastError?.message || "Failed to generate valid image after multiple attempts"\<close>\<close>

definition final_message :: "thrown option \<Rightarrow> string" where
  "final_message lastError =
     (case lastError of
        None \<Rightarrow> exhausted_message
      | Some e \<Rightarrow>
         (case message e of
            None \<Rightarrow> exhausted_message
          | Some m \<Rightarrow> if m \<noteq> [] then m else exhausted_message))"

text \<open>The \<open>for\<close> loop from a given value of \<open>attempt\<close>, \<open>lastGeneratedImage\<close> and
  \<open>lastError\<close>, followed by the statements after it.\<close>

function retry_loop ::
  "service \<Rightarrow> plate_args \<Rightarrow> string option \<Rightarrow> string \<Rightarrow> nat \<Rightarrow> string \<Rightarrow> thrown option
     \<Rightarrow> event list \<Rightarrow> (thrown + string) \<times> event list" where
  "retry_loop svc args base64Data mimeType attempt lastGeneratedImage lastError tr =
     (if attempt \<le> MAX_RETRIES then
        (case attempt_body svc args base64Data mimeType attempt tr of
           (Verified url, tr') \<Rightarrow> (Inr url, tr')
         | (Unverified url, tr') \<Rightarrow>
             retry_loop svc args base64Data mimeType (attempt + 1) url lastError tr'
         | (Failed e, tr') \<Rightarrow>
             retry_loop svc args base64Data mimeType (attempt + 1) lastGeneratedImage (Some e) tr')
      else if lastGeneratedImage \<noteq> [] then (Inr lastGeneratedImage, tr)
      else (Inl (Thrown (Some (final_message lastError))), tr))"
  by pat_completeness auto
termination
  by (relation "measure (\<lambda>(svc, args, b, m, attempt, img, err, tr). Suc MAX_RETRIES - attempt)") auto

declare retry_loop.simps [simp del]

definition key_missing :: "string option \<Rightarrow> bool" where
  "key_missing k = (case k of None \<Rightarrow> True | Some s \<Rightarrow> s = [])"

text \<open>The statements of \<open>generatePlate\<close> before the loop: the result is \<open>Inr processedImage\<close>
  when the loop is to be entered, and the error thrown otherwise.\<close>

definition generatePlate_setup :: "environment \<Rightarrow> plate_args \<Rightarrow> (thrown + string) \<times> event list" where
  "generatePlate_setup env args =
     (if key_missing (apiKey env) then (Inl (Thrown (Some missing_key_message)), [])
      else (let tr0 = report (onProgress args) ''Checking image...'' []
            in case preprocessImage (browser env) (imageBase64 args) of
                 Inl e \<Rightarrow> (Inl e, tr0)
               | Inr processedImage \<Rightarrow>
                  (let (hasPlate, tr1) =
                         (if mode args = Add \<and> \<not> skipDetection args
                          then checkForExistingPlate (strings env) (ai env) processedImage
                                 (report (onProgress args) ''Scanning for existing plates...'' tr0)
                          else (False, tr0))
                   in if hasPlate then (Inl (Thrown (Some confirmation_message)), tr1)
                      else (Inr processedImage, tr1))))"

definition generatePlate :: "environment \<Rightarrow> plate_args \<Rightarrow> (thrown + string) \<times> event list" where
  "generatePlate env args =
     (case generatePlate_setup env args of
        (Inl e, tr) \<Rightarrow> (Inl e, tr)
      | (Inr processedImage, tr) \<Rightarrow>
          (let base64Data = split_second processedImage;
               mimeType = mime_or processedImage ''image/jpeg''
           in retry_loop (ai env) args base64Data mimeType 1 [] None tr))"

section \<open>Notions used to state the properties\<close>

text \<open>The text of a response, empty when the response has none.\<close>

definition answer_text :: "response \<Rightarrow> string" where
  "answer_text r = (case response_text r of None \<Rightarrow> [] | Some t \<Rightarrow> t)"

text \<open>The pixel buffer \<open>imageData.data\<close> that \<open>preprocessImage\<close> scans: it exists when
  there is a rendering surface, the image loads, a 2D context is obtained and \<open>drawImage\<close>
  and \<open>getImageData\<close> return.\<close>

definition decoded_pixels :: "(string \<Rightarrow> image_load) option \<Rightarrow> string \<Rightarrow> byte list option" where
  "decoded_pixels surface base64Str =
     (case surface of
        None \<Rightarrow> None
      | Some load \<Rightarrow>
         (case load base64Str of
            OnError \<Rightarrow> None
          | OnLoad cv \<Rightarrow>
             (case getContext cv of
                Throws e \<Rightarrow> None
              | Returns ctx \<Rightarrow>
                 if \<not> ctx then None
                 else (case drawImage cv of
                    Throws e \<Rightarrow> None
                  | Returns u \<Rightarrow>
                     (case getImageData cv of Throws e \<Rightarrow> None | Returns d \<Rightarrow> Some d)))))"

text \<open>Calls to the generation model are the calls whose request names it.\<close>

fun is_generation_call :: "event \<Rightarrow> bool" where
  "is_generation_call (Call req _) = (model req = ''gemini-2.5-flash-image'')"
| "is_generation_call (Progress _) = False"

definition generation_calls :: "event list \<Rightarrow> event list" where
  "generation_calls tr = filter is_generation_call tr"

text \<open>A call that asked for the plate text and whose answer matches the expected number.\<close>

fun verification_passed :: "string \<Rightarrow> event \<Rightarrow> bool" where
  "verification_passed expectedNumber (Call req (Returns r)) =
     (prompt req = verify_prompt \<and>
      plate_match (cleanText (answer_text r)) (cleanText expectedNumber))"
| "verification_passed expectedNumber (Call req (Throws e)) = False"
| "verification_passed expectedNumber (Progress s) = False"

definition png_data_uri :: "string \<Rightarrow> bool" where
  "png_data_uri u = (\<exists>b. b \<noteq> [] \<and> u = ''data:image/png;base64,'' @ b)"

text \<open>The calls \<open>new\<close> end with a generation call that returned an image and one more call,
  no earlier call is a passed verification, and \<open>res\<close> is that image.\<close>

definition ends_verified :: "string \<Rightarrow> thrown + string \<Rightarrow> event list \<Rightarrow> bool" where
  "ends_verified pn res new =
     (\<exists>xs req r v. new = xs @ [Call req (Returns r), v] \<and>
        is_generation_call (Call req (Returns r)) \<and>
        \<not> verification_passed pn (Call req (Returns r)) \<and>
        (\<forall>e\<in>set xs. \<not> verification_passed pn e) \<and>
        extract_image r \<noteq> [] \<and> res = Inr (extract_image r))"

section \<open>Concrete scenarios\<close>

text \<open>Responses, services and arguments on which the theorems below are instantiated.\<close>

definition text_response :: "string \<Rightarrow> response" where
  "text_response t = Response (Some t) None"

definition image_response :: "string \<Rightarrow> string \<Rightarrow> response" where
  "image_response payload mime =
     Response None
       (Some [Candidate (Some (Content (Some
          [Part None (Some ''Here is the edited image.''),
           Part (Some (InlineData (Some payload) (Some mime))) None])))])"

text \<open>A service that answers every call with the same text, one that rejects every call,
  and one that answers from a script and is unreachable afterwards.\<close>

definition answers :: "string \<Rightarrow> service" where
  "answers t n req = Returns (text_response t)"

definition rejecting :: "thrown \<Rightarrow> service" where
  "rejecting e n req = Throws e"

definition scripted :: "response outcome list \<Rightarrow> service" where
  "scripted rs n req = (if n < length rs then rs ! n else Throws (Thrown (Some ''fetch failed'')))"

definition sample_image :: string where
  "sample_image = ''data:image/jpeg;base64,QUJD''"

definition sample_args :: "mode \<Rightarrow> string \<Rightarrow> plate_args" where
  "sample_args m number =
     \<lparr>imageBase64 = sample_image, plateNumber = number, plateCountry = ''German'',
      mode = m, onProgress = True, skipDetection = False\<rparr>"

text \<open>The two string methods on ASCII text, where they strip the ASCII white space (tab,
  line feed, vertical tab, form feed, carriage return, space) and upper-case the letters
  \<open>a\<close> to \<open>z\<close>. The answers of the services above are ASCII.\<close>

definition isAsciiSpace :: "char \<Rightarrow> bool" where
  "isAsciiSpace c = (of_char c \<in> {9, 10, 11, 12, 13, 32 :: nat})"

definition ascii_trim :: "string \<Rightarrow> string" where
  "ascii_trim s = rev (dropWhile isAsciiSpace (rev (dropWhile isAsciiSpace s)))"

definition ascii_methods :: string_methods where
  "ascii_methods = \<lparr>trim = ascii_trim, toUpperCase = map upperChar\<rparr>"

definition sample_env :: "service \<Rightarrow> environment" where
  "sample_env svc =
     \<lparr>apiKey = Some ''key'', strings = ascii_methods, browser = None, ai = svc\<rparr>"

text \<open>A canvas whose pixel buffer has five pixels, the fifth with alpha 100.\<close>

definition translucent_canvas :: canvas where
  "translucent_canvas =
     \<lparr>getContext = Returns True, drawImage = Returns (),
      getImageData = Returns (replicate 19 255 @ [100]),
      toDataURL = Returns ''data:image/jpeg;base64,SlBH''\<rparr>"

definition translucent_browser :: "string \<Rightarrow> image_load" where
  "translucent_browser s = OnLoad translucent_canvas"

text \<open>Four attempts that each produce an image the verifier reads as another plate.\<close>

definition never_verified :: service where
  "never_verified =
     scripted [Returns (image_response ''RDE='' ''image/jpeg''), Returns (text_response ''XYZ 999''),
               Returns (image_response ''RDI='' ''image/jpeg''), Returns (text_response ''XYZ 999''),
               Returns (image_response ''RDM='' ''image/jpeg''), Returns (text_response ''XYZ 999''),
               Returns (image_response ''RDQ='' ''image/webp''), Throws (Thrown (Some ''timeout''))]"

text \<open>A first image that is misread, a second one that is read as requested.\<close>

definition second_verified :: service where
  "second_verified =
     scripted [Returns (image_response ''RDE='' ''image/jpeg''), Returns (text_response ''ABC 1284''),
               Returns (image_response ''RDI='' ''image/jpeg''), Returns (text_response ''abc-1234'')]"


section \<open>Strings\<close>

text \<open>The character class of \<open>cleanText\<close> is the ASCII letters and digits, and
  \<open>upperChar\<close> maps the lower-case letters to the upper-case ones and leaves other ASCII
  characters alone.\<close>

lemma isAlnum_chars:
  "isAlnum c = (c \<in> set ''abcdefghijklmnopqrstuvwxyzABCDEFGHIJKLMNOPQRSTUVWXYZ0123456789'')"
  by (cases c) (simp add: isAlnum_def)

lemma upperChar_letters:
  "map upperChar ''abcdefghijklmnopqrstuvwxyz'' = ''ABCDEFGHIJKLMNOPQRSTUVWXYZ'' \<and>
   map upperChar ''ABCXYZ 0123456789-_'' = ''ABCXYZ 0123456789-_''"
  by code_simp

text \<open>\<open>includes\<close> is containment as a contiguous substring.\<close>

lemma str_includes_sublist: "str_includes hay needle = sublist needle hay"
  by (induction hay) (auto simp: sublist_Cons_right)


lemma cleanText_Nil: "cleanText [] = []"
  by (simp add: cleanText_def)



section \<open>Traces\<close>

lemma calls_report [simp]: "calls (report p s tr) = calls tr"
  by (simp add: calls_def report_def)

lemma calls_snoc_Call [simp]: "calls (tr @ [Call req r]) = calls tr @ [Call req r]"
  by (simp add: calls_def)

lemma calls_Nil [simp]: "calls [] = []"
  by (simp add: calls_def)

lemma generation_calls_report [simp]: "generation_calls (report p s tr) = generation_calls tr"
  by (simp add: generation_calls_def report_def)

lemma generation_calls_Nil [simp]: "generation_calls [] = []"
  by (simp add: generation_calls_def)

lemma generation_calls_calls: "generation_calls tr = filter is_generation_call (calls tr)"
proof -
  have "is_generation_call e \<Longrightarrow> is_call e" for e by (cases e) simp_all
  then have "(is_call e \<and> is_generation_call e) = is_generation_call e" for e by blast
  then show ?thesis by (simp add: generation_calls_def calls_def)
qed

lemma prompt_verify_request [simp]: "prompt (verify_request img) = verify_prompt"
  by (simp add: verify_request_def)

lemma model_verify_request [simp]: "model (verify_request img) = ''gemini-2.5-flash''"
  by (simp add: verify_request_def)

lemma model_detect_request [simp]: "model (detect_request img) = ''gemini-2.5-flash''"
  by (simp add: detect_request_def)

lemma model_generation_request [simp]:
  "model (generation_request args b m) = ''gemini-2.5-flash-image''"
  by (simp add: generation_request_def)

lemma prompt_generation_request [simp]: "prompt (generation_request args b m) \<noteq> verify_prompt"
  by (simp add: generation_request_def generation_prompt_def verify_prompt_def)

lemma prompt_detect_request [simp]: "prompt (detect_request img) \<noteq> verify_prompt"
  by (simp add: detect_request_def detect_prompt_def verify_prompt_def)

lemma verification_passed_generation [simp]:
  "\<not> verification_passed pn (Call (generation_request args b m) gr)"
  by (cases gr) simp_all

lemma verification_passed_detect [simp]:
  "\<not> verification_passed pn (Call (detect_request img) gr)"
  by (cases gr) simp_all

section \<open>The verifier\<close>

lemma ocr_text: "(case response_text r of None \<Rightarrow> [] | Some t \<Rightarrow> if t \<noteq> [] then cleanText t else []) = cleanText (answer_text r)"
  by (simp add: answer_text_def cleanText_Nil split: option.splits)

lemma fst_verifyPlateContent:
  "fst (verifyPlateContent svc img expectedNumber tr) =
     (case svc (length (calls tr)) (verify_request img) of
        Throws e \<Rightarrow> False
      | Returns r \<Rightarrow> plate_match (cleanText (answer_text r)) (cleanText expectedNumber))"
  by (simp add: verifyPlateContent_def generateContent_def ocr_text Let_def split: outcome.splits)

lemma verifyPlateContent_eq:
  "verifyPlateContent svc img pn tr =
     (verification_passed pn (Call (verify_request img) (svc (length (calls tr)) (verify_request img))),
      tr @ [Call (verify_request img) (svc (length (calls tr)) (verify_request img))])"
  by (simp add: verifyPlateContent_def generateContent_def ocr_text Let_def split: outcome.splits)

text \<open>
  C1, as amended. \<open>verifyPlateContent\<close> returns true if and only if the call to the model
  returns and, with both strings normalised by \<open>cleanText\<close> (every character that is not an
  ASCII letter or digit deleted, the rest upper-cased), either the observed text contains
  the expected text as a contiguous substring, or the expected text contains the observed
  text as a contiguous substring and the observed length is strictly more than 80% of the
  expected length. A response without text counts as the empty observed text; a call that
  throws gives false.
\<close>

theorem verifyPlateContent_rule:
  "fst (verifyPlateContent svc img expectedNumber tr) =
     (\<exists>r. svc (length (calls tr)) (verify_request img) = Returns r \<and>
        (let observed = cleanText (answer_text r); expected = cleanText expectedNumber
         in sublist expected observed \<or>
            (sublist observed expected \<and> 4 * length expected < 5 * length observed)))"
  by (simp add: fst_verifyPlateContent plate_match_def str_includes_sublist Let_def split: outcome.splits)

text \<open>For the expected plate \<open>ABC1234\<close> the answer \<open>abc-1234\<close> is accepted.\<close>

theorem verifyPlateContent_rule_witness:
  "fst (verifyPlateContent (answers ''abc-1234'') ''data:image/png;base64,RDE='' ''ABC1234'' [])"
  unfolding verifyPlateContent_rule
    [of "answers ''abc-1234''" "''data:image/png;base64,RDE=''" "''ABC1234''" "[]"]
  by (simp add: answers_def Let_def) code_simp

text \<open>
  C1 as claimed fails in two places. The observed text \<open>ABCD\<close> is contained in the expected
  \<open>ABCDE\<close> and its length is exactly 80% of the expected length, which is "at least 80%",
  yet the verifier rejects it: the comparison in the code is strict. And the answer \<open>AB1234\<close> for
  the expected \<open>ABC1234\<close> is rejected: it is not a contiguous substring of \<open>ABC1234\<close>.
\<close>

theorem verifyPlateContent_claimed_counterexample:
  "sublist (cleanText ''ABCD'') (cleanText ''ABCDE'') \<and>
   4 * length (cleanText ''ABCDE'') \<le> 5 * length (cleanText ''ABCD'') \<and>
   \<not> fst (verifyPlateContent (answers ''ABCD'') ''data:image/png;base64,RDE='' ''ABCDE'' []) \<and>
   \<not> fst (verifyPlateContent (answers ''AB1234'') ''data:image/png;base64,RDE='' ''ABC1234'' [])"
  by code_simp

section \<open>The normaliser\<close>

lemma alpha_scan_iff:
  "alpha_scan d i = (\<exists>k. i + 16 * k < length d \<and> d ! (i + 16 * k) < 250)"
proof (induction d i rule: alpha_scan.induct)
  case (1 d i)
  show ?case
  proof (cases "i < length d")
    case False
    then show ?thesis by (subst alpha_scan.simps) simp
  next
    case inside: True
    show ?thesis
    proof (cases "d ! i < 250")
      case True
      have "i + 16 * 0 < length d \<and> d ! (i + 16 * 0) < 250"
        using inside True by simp
      then have "\<exists>k. i + 16 * k < length d \<and> d ! (i + 16 * k) < 250" by blast
      moreover have "alpha_scan d i"
        using inside True by (subst alpha_scan.simps) simp
      ultimately show ?thesis by simp
    next
      case False
      have step: "alpha_scan d i = alpha_scan d (i + 16)"
        using inside False by (subst alpha_scan.simps) simp
      have ih: "alpha_scan d (i + 16) = (\<exists>k. i + 16 + 16 * k < length d \<and> d ! (i + 16 + 16 * k) < 250)"
        using "1.IH" [OF inside False] .
      have "(\<exists>k. i + 16 + 16 * k < length d \<and> d ! (i + 16 + 16 * k) < 250)
              = (\<exists>k. i + 16 * k < length d \<and> d ! (i + 16 * k) < 250)" (is "?L = ?R")
      proof
        assume ?L
        then obtain k where "i + 16 + 16 * k < length d" "d ! (i + 16 + 16 * k) < 250" by blast
        then have "i + 16 * Suc k < length d \<and> d ! (i + 16 * Suc k) < 250"
          by (simp add: add.assoc)
        then show ?R by blast
      next
        assume ?R
        then obtain k where k: "i + 16 * k < length d" "d ! (i + 16 * k) < 250" by blast
        with False have "k \<noteq> 0" by (cases k) auto
        then obtain j where "k = Suc j" by (cases k) auto
        with k have "i + 16 + 16 * j < length d \<and> d ! (i + 16 + 16 * j) < 250"
          by (simp add: add.assoc)
        then show ?L by blast
      qed
      with step ih show ?thesis by simp
    qed
  qed
qed

lemma reencode_Inr: "reencode cv s \<noteq> Inl e"
  by (simp add: reencode_def split: outcome.splits)

lemma preprocessImage_None: "preprocessImage None img = Inr img"
  by (simp add: preprocessImage_def)

lemma preprocessImage_Inl:
  "(preprocessImage surface img = Inl e) =
     (e = Thrown (Some transparent_message) \<and>
      (\<exists>d. decoded_pixels surface img = Some d \<and> alpha_scan d 3))"
proof (cases surface)
  case None
  then show ?thesis by (simp add: preprocessImage_def decoded_pixels_def)
next
  case (Some load)
  show ?thesis
  proof (cases "load img")
    case OnError
    with Some show ?thesis by (simp add: preprocessImage_def decoded_pixels_def)
  next
    case (OnLoad cv)
    show ?thesis
    proof (cases "getContext cv")
      case (Throws x)
      with Some OnLoad show ?thesis by (simp add: preprocessImage_def decoded_pixels_def)
    next
      case ctx: (Returns c)
      show ?thesis
      proof (cases c)
        case False
        with Some OnLoad ctx show ?thesis by (simp add: preprocessImage_def decoded_pixels_def)
      next
        case True
        show ?thesis
        proof (cases "drawImage cv")
          case (Throws x)
          with Some OnLoad ctx True show ?thesis
            by (simp add: preprocessImage_def decoded_pixels_def)
        next
          case drawn: (Returns u)
          show ?thesis
          proof (cases "getImageData cv")
            case (Throws x)
            with Some OnLoad ctx True drawn show ?thesis
              by (simp add: preprocessImage_def decoded_pixels_def reencode_Inr)
          next
            case (Returns d)
            with Some OnLoad ctx True drawn show ?thesis
              by (auto simp: preprocessImage_def decoded_pixels_def reencode_Inr)
          qed
        qed
      qed
    qed
  qed
qed

text \<open>
  C4. \<open>preprocessImage\<close> raises an error exactly when some sampled byte of the decoded
  RGBA buffer (the bytes at indices 3, 19, 35, ...) is strictly below 250, and the error is
  the transparency error; without a rendering surface it returns its input unchanged.
\<close>

theorem preprocessImage_transparency:
  "(preprocessImage surface img = Inl e) =
     (e = Thrown (Some transparent_message) \<and>
      (\<exists>d. decoded_pixels surface img = Some d \<and>
           (\<exists>k. 3 + 16 * k < length d \<and> d ! (3 + 16 * k) < 250)))
   \<and> preprocessImage None img = Inr img"
  by (simp add: preprocessImage_Inl preprocessImage_None alpha_scan_iff)

theorem preprocessImage_transparency_witness:
  "preprocessImage (Some translucent_browser) sample_image = Inl (Thrown (Some transparent_message))
   \<and> preprocessImage None sample_image = Inr sample_image"
proof -
  have "decoded_pixels (Some translucent_browser) sample_image = Some (replicate 19 255 @ [100])
        \<and> 3 + 16 * 1 < length (replicate 19 255 @ [100 :: byte])
        \<and> (replicate 19 255 @ [100 :: byte]) ! (3 + 16 * 1) < 250"
    by code_simp
  then have "\<exists>d. decoded_pixels (Some translucent_browser) sample_image = Some d \<and>
           (\<exists>k. 3 + 16 * k < length d \<and> d ! (3 + 16 * k) < 250)"
    by blast
  then show ?thesis
    using preprocessImage_transparency
      [of "Some translucent_browser" sample_image "Thrown (Some transparent_message)"]
    by simp
qed

section \<open>The detector\<close>

lemma checkForExistingPlate_fst:
  "fst (checkForExistingPlate js svc img tr) =
     (case svc (length (calls tr)) (detect_request img) of
        Throws e \<Rightarrow> False
      | Returns r \<Rightarrow>
         (case response_text r of
            None \<Rightarrow> False
          | Some t \<Rightarrow> str_includes (toUpperCase js (trim js t)) ''YES''))"
  by (simp add: checkForExistingPlate_def generateContent_def Let_def
        split: outcome.splits option.splits)

lemma checkForExistingPlate_trace:
  "snd (checkForExistingPlate js svc img tr) =
     tr @ [Call (detect_request img) (svc (length (calls tr)) (detect_request img))]"
  by (simp add: checkForExistingPlate_def generateContent_def Let_def split: outcome.splits)

text \<open>An answer that the engine upper-cases to \<open>YESS\<close>, as it does \<open>ye\<close> followed by U+00DF,
  counts as a detected plate.\<close>

lemma checkForExistingPlate_engine_upper:
  assumes "svc (length (calls tr)) (detect_request img) = Returns r"
    and "response_text r = Some t"
    and "toUpperCase js (trim js t) = ''YESS''"
  shows "fst (checkForExistingPlate js svc img tr)"
  using assms by (simp add: checkForExistingPlate_fst)

text \<open>
  C8. \<open>checkForExistingPlate\<close> always returns a boolean and has no way to throw: it is
  false when the call to the model throws, and when the call returns it is true exactly
  when the response has a text whose trimmed, upper-cased form contains \<open>YES\<close>. The
  trimming and the upper-casing are those of the engine, whatever they do outside ASCII.
\<close>

theorem checkForExistingPlate_rule:
  "fst (checkForExistingPlate js svc img tr) =
     (\<exists>r t. svc (length (calls tr)) (detect_request img) = Returns r \<and>
            response_text r = Some t \<and>
            sublist ''YES'' (toUpperCase js (trim js t)))"
  by (simp add: checkForExistingPlate_fst str_includes_sublist split: outcome.splits option.splits)

theorem checkForExistingPlate_rule_witness:
  "fst (checkForExistingPlate ascii_methods (answers '' Yes, a plate is visible. '') sample_image []) \<and>
   \<not> fst (checkForExistingPlate ascii_methods (answers ''NO'') sample_image []) \<and>
   \<not> fst (checkForExistingPlate ascii_methods (rejecting (Thrown (Some ''fetch failed''))) sample_image [])"
  unfolding checkForExistingPlate_rule
  by (simp add: answers_def rejecting_def text_response_def) code_simp

section \<open>One attempt and the retry loop\<close>

lemma attempt_body_eq:
  "attempt_body svc args b m k tr =
     (let g = generation_request args b m;
          gr = svc (length (calls tr)) g;
          tr2 = report (onProgress args) (progress_status k) tr @ [Call g gr]
      in case gr of
           Throws e \<Rightarrow> (Failed e, tr2)
         | Returns r \<Rightarrow>
            if extract_image r = [] then (Failed (Thrown (Some no_image_message)), tr2)
            else (let u = extract_image r;
                      v = verify_request u;
                      vr = svc (Suc (length (calls tr))) v;
                      tr4 = report (onProgress args) ''Verifying plate text...'' tr2 @ [Call v vr]
                  in (if verification_passed (plateNumber args) (Call v vr)
                      then Verified u else Unverified u, tr4)))"
  by (simp add: attempt_body_def generateContent_def verifyPlateContent_eq Let_def
           split: outcome.splits)

lemma attempt_Failed:
  assumes "attempt_body svc args b m k tr = (Failed e, tr')"
  shows "\<exists>gr. calls tr' = calls tr @ [Call (generation_request args b m) gr]"
  using assms
  by (auto simp: attempt_body_eq Let_def split: outcome.splits if_splits)

lemma attempt_Unverified:
  assumes "attempt_body svc args b m k tr = (Unverified u, tr')"
  shows "\<exists>r vr. u = extract_image r \<and> u \<noteq> [] \<and>
           calls tr' = calls tr @ [Call (generation_request args b m) (Returns r),
                                   Call (verify_request u) vr] \<and>
           \<not> verification_passed (plateNumber args) (Call (verify_request u) vr)"
  using assms
  by (auto simp: attempt_body_eq Let_def split: outcome.splits if_splits)

lemma attempt_Verified:
  assumes "attempt_body svc args b m k tr = (Verified u, tr')"
  shows "\<exists>r vr. u = extract_image r \<and> u \<noteq> [] \<and>
           calls tr' = calls tr @ [Call (generation_request args b m) (Returns r),
                                   Call (verify_request u) vr] \<and>
           verification_passed (plateNumber args) (Call (verify_request u) vr)"
  using assms
  by (auto simp: attempt_body_eq Let_def split: outcome.splits if_splits)

text \<open>An attempt ends in the \<open>catch\<close> clause exactly when it produces no image.\<close>

lemma attempt_no_image:
  "(\<exists>e. fst (attempt_body svc args b m k tr) = Failed e) =
     (case svc (length (calls tr)) (generation_request args b m) of
        Throws e \<Rightarrow> True
      | Returns r \<Rightarrow> extract_image r = [])"
  by (auto simp: attempt_body_eq Let_def split: outcome.splits if_splits)

lemma attempt_body_generation_calls:
  assumes "attempt_body svc args b m k tr = (a, tr')"
  shows "length (generation_calls tr') = Suc (length (generation_calls tr))"
proof (cases a)
  case (Verified u)
  with assms attempt_Verified [of svc args b m k tr u tr'] show ?thesis
    by (auto simp: generation_calls_calls)
next
  case (Unverified u)
  with assms attempt_Unverified [of svc args b m k tr u tr'] show ?thesis
    by (auto simp: generation_calls_calls)
next
  case (Failed e)
  with assms attempt_Failed [of svc args b m k tr e tr'] show ?thesis
    by (auto simp: generation_calls_calls)
qed

lemma retry_loop_exhausted:
  "MAX_RETRIES < k \<Longrightarrow>
     retry_loop svc args b m k img err tr =
       (if img \<noteq> [] then (Inr img, tr) else (Inl (Thrown (Some (final_message err))), tr))"
  by (subst retry_loop.simps) simp

lemma retry_loop_Verified:
  "k \<le> MAX_RETRIES \<Longrightarrow> attempt_body svc args b m k tr = (Verified u, tr') \<Longrightarrow>
     retry_loop svc args b m k img err tr = (Inr u, tr')"
  by (subst retry_loop.simps) simp

lemma retry_loop_Unverified:
  "k \<le> MAX_RETRIES \<Longrightarrow> attempt_body svc args b m k tr = (Unverified u, tr') \<Longrightarrow>
     retry_loop svc args b m k img err tr = retry_loop svc args b m (k + 1) u err tr'"
  by (subst retry_loop.simps) simp

lemma retry_loop_Failed:
  "k \<le> MAX_RETRIES \<Longrightarrow> attempt_body svc args b m k tr = (Failed e, tr') \<Longrightarrow>
     retry_loop svc args b m k img err tr = retry_loop svc args b m (k + 1) img (Some e) tr'"
  by (subst retry_loop.simps) simp

text \<open>Induction over the iterations of the loop, for a fixed service and request.\<close>

lemma retry_loop_cases [case_names exhausted verified unverified failed]:
  assumes "\<And>k img err tr. MAX_RETRIES < k \<Longrightarrow> P k img err tr"
    and "\<And>k img err tr u tr'.
           k \<le> MAX_RETRIES \<Longrightarrow> attempt_body svc args b m k tr = (Verified u, tr') \<Longrightarrow>
           P k img err tr"
    and "\<And>k img err tr u tr'.
           k \<le> MAX_RETRIES \<Longrightarrow> attempt_body svc args b m k tr = (Unverified u, tr') \<Longrightarrow>
           P (k + 1) u err tr' \<Longrightarrow> P k img err tr"
    and "\<And>k img err tr e tr'.
           k \<le> MAX_RETRIES \<Longrightarrow> attempt_body svc args b m k tr = (Failed e, tr') \<Longrightarrow>
           P (k + 1) img (Some e) tr' \<Longrightarrow> P k img err tr"
  shows "P k img err tr"
proof -
  have "Suc MAX_RETRIES - k = n \<Longrightarrow> P k img err tr" for n k img err tr
  proof (induction n arbitrary: k img err tr)
    case 0
    then have "MAX_RETRIES < k" by simp
    then show ?case by (rule assms(1))
  next
    case (Suc n k img err tr)
    then have le: "k \<le> MAX_RETRIES" and n: "Suc MAX_RETRIES - (k + 1) = n" by simp_all
    obtain a tr' where ab: "attempt_body svc args b m k tr = (a, tr')"
      by (cases "attempt_body svc args b m k tr") blast
    show ?case
    proof (cases a)
      case (Verified u)
      from le ab [unfolded Verified] show ?thesis by (rule assms(2))
    next
      case (Unverified u)
      from le ab [unfolded Unverified] Suc.IH [OF n] show ?thesis by (rule assms(3))
    next
      case (Failed e)
      from le ab [unfolded Failed] Suc.IH [OF n] show ?thesis by (rule assms(4))
    qed
  qed
  then show ?thesis by blast
qed

lemma pair_from_fst: "fst x = a \<Longrightarrow> x = (a, snd x)"
  by (cases x) simp

section \<open>Detection precedes generation\<close>

text \<open>
  C3. In ADD mode with \<open>skipDetection = false\<close>, when the detector reports a plate on the
  normalised image, \<open>generatePlate\<close> ends with the error \<open>PLATE_DETECTED_CONFIRMATION\<close>, no
  call to the generation model has been issued, and the detection call is the only call.
\<close>

theorem generatePlate_needs_confirmation:
  assumes "\<not> key_missing (apiKey env)"
    and "preprocessImage (browser env) (imageBase64 args) = Inr p"
    and "mode args = Add" and "\<not> skipDetection args"
    and "fst (checkForExistingPlate (strings env) (ai env) p [])"
  shows "fst (generatePlate env args) = Inl (Thrown (Some ''PLATE_DETECTED_CONFIRMATION'')) \<and>
         generation_calls (snd (generatePlate env args)) = [] \<and>
         calls (snd (generatePlate env args)) =
           [Call (detect_request p) (ai env 0 (detect_request p))]"
proof -
  let ?tr = "report (onProgress args) ''Scanning for existing plates...''
               (report (onProgress args) ''Checking image...'' [])"
  from assms(5) have "fst (checkForExistingPlate (strings env) (ai env) p ?tr)"
    by (simp add: checkForExistingPlate_fst)
  with assms(1-4) have
    "generatePlate_setup env args =
       (Inl (Thrown (Some confirmation_message)),
        snd (checkForExistingPlate (strings env) (ai env) p ?tr))"
    by (simp add: generatePlate_setup_def Let_def split_beta)
  then show ?thesis
    by (simp add: generatePlate_def checkForExistingPlate_trace confirmation_message_def
          generation_calls_calls)
qed

theorem generatePlate_needs_confirmation_witness:
  "fst (generatePlate (sample_env (answers ''YES'')) (sample_args Add ''ABC1234''))
     = Inl (Thrown (Some ''PLATE_DETECTED_CONFIRMATION'')) \<and>
   generation_calls (snd (generatePlate (sample_env (answers ''YES'')) (sample_args Add ''ABC1234''))) = []"
proof -
  have 1: "\<not> key_missing (apiKey (sample_env (answers ''YES'')))" by code_simp
  have 2: "preprocessImage (browser (sample_env (answers ''YES''))) (imageBase64 (sample_args Add ''ABC1234''))
             = Inr sample_image" by code_simp
  have 3: "mode (sample_args Add ''ABC1234'') = Add" by code_simp
  have 4: "\<not> skipDetection (sample_args Add ''ABC1234'')" by code_simp
  have 5: "fst (checkForExistingPlate (strings (sample_env (answers ''YES'')))
             (ai (sample_env (answers ''YES''))) sample_image [])" by code_simp
  from generatePlate_needs_confirmation [OF 1 2 3 4 5] show ?thesis by simp
qed

section \<open>The bound on generation attempts\<close>

lemma retry_loop_generation_calls:
  "length (generation_calls (snd (retry_loop svc args b m k img err tr)))
     \<le> length (generation_calls tr) + (Suc MAX_RETRIES - k)"
proof (induction k img err tr rule: retry_loop_cases [where svc = svc and args = args and b = b and m = m])
  case (exhausted k img err tr)
  then show ?case by (simp add: retry_loop_exhausted)
next
  case (verified k img err tr u tr')
  then show ?case
    using attempt_body_generation_calls [of svc args b m k tr "Verified u" tr']
    by (simp add: retry_loop_Verified)
next
  case (unverified k img err tr u tr')
  then show ?case
    using attempt_body_generation_calls [of svc args b m k tr "Unverified u" tr']
    by (simp add: retry_loop_Unverified)
next
  case (failed k img err tr e tr')
  then show ?case
    using attempt_body_generation_calls [of svc args b m k tr "Failed e" tr']
    by (simp add: retry_loop_Failed)
qed

lemma setup_generation_calls: "generation_calls (snd (generatePlate_setup env args)) = []"
  by (simp add: generatePlate_setup_def Let_def split_beta checkForExistingPlate_trace
        generation_calls_calls split: sum.splits)

text \<open>
  C6. Every invocation of \<open>generatePlate\<close> issues at most \<open>MAX_RETRIES = 4\<close> calls to the
  generation model.
\<close>

theorem generatePlate_attempt_bound:
  "length (generation_calls (snd (generatePlate env args))) \<le> 4"
proof (cases "generatePlate_setup env args")
  case (Pair r tr)
  with setup_generation_calls [of env args] have none: "generation_calls tr = []" by simp
  show ?thesis
  proof (cases r)
    case (Inl e)
    with Pair none show ?thesis by (simp add: generatePlate_def)
  next
    case (Inr p)
    with Pair none
      retry_loop_generation_calls [of "ai env" args "split_second p" "mime_or p ''image/jpeg''" 1 "[]" None tr]
    show ?thesis by (simp add: generatePlate_def MAX_RETRIES_def)
  qed
qed

theorem generatePlate_attempt_bound_witness:
  "length (generation_calls (snd (generatePlate (sample_env never_verified) (sample_args Replace ''ABC1234'')))) \<le> 4"
  by (rule generatePlate_attempt_bound)

section \<open>The result after four attempts\<close>

text \<open>
  C2. When the loop is entered and each of the four attempts produces an image whose
  verification returns false, \<open>generatePlate\<close> returns the image of attempt 4.
\<close>

theorem generatePlate_best_effort_last:
  assumes "generatePlate_setup env args = (Inr p, tr0)"
    and "attempt_body (ai env) args (split_second p) (mime_or p ''image/jpeg'') 1 tr0 = (Unverified u1, tr1)"
    and "attempt_body (ai env) args (split_second p) (mime_or p ''image/jpeg'') 2 tr1 = (Unverified u2, tr2)"
    and "attempt_body (ai env) args (split_second p) (mime_or p ''image/jpeg'') 3 tr2 = (Unverified u3, tr3)"
    and "attempt_body (ai env) args (split_second p) (mime_or p ''image/jpeg'') 4 tr3 = (Unverified u4, tr4)"
  shows "generatePlate env args = (Inr u4, tr4)"
proof -
  let ?loop = "retry_loop (ai env) args (split_second p) (mime_or p ''image/jpeg'')"
  from attempt_Unverified [OF assms(5)] have u4: "u4 \<noteq> []" by blast
  have "?loop 1 [] None tr0 = ?loop 2 u1 None tr1"
    using retry_loop_Unverified [OF _ assms(2)] by (simp add: MAX_RETRIES_def eval_nat_numeral)
  also have "\<dots> = ?loop 3 u2 None tr2"
    using retry_loop_Unverified [OF _ assms(3)] by (simp add: MAX_RETRIES_def eval_nat_numeral)
  also have "\<dots> = ?loop 4 u3 None tr3"
    using retry_loop_Unverified [OF _ assms(4)] by (simp add: MAX_RETRIES_def eval_nat_numeral)
  also have "\<dots> = ?loop 5 u4 None tr4"
    using retry_loop_Unverified [OF _ assms(5)] by (simp add: MAX_RETRIES_def eval_nat_numeral)
  also have "\<dots> = (Inr u4, tr4)"
    using u4 by (simp add: retry_loop_exhausted MAX_RETRIES_def)
  finally show ?thesis using assms(1) by (simp add: generatePlate_def)
qed

theorem generatePlate_best_effort_last_witness:
  "fst (generatePlate (sample_env never_verified) (sample_args Replace ''ABC1234''))
     = Inr ''data:image/png;base64,RDQ=''"
proof -
  define env where "env = sample_env never_verified"
  define args where "args = sample_args Replace ''ABC1234''"
  define b where "b = split_second sample_image"
  define m where "m = mime_or sample_image ''image/jpeg''"
  define tr0 where "tr0 = snd (generatePlate_setup env args)"
  define tr1 where "tr1 = snd (attempt_body (ai env) args b m 1 tr0)"
  define tr2 where "tr2 = snd (attempt_body (ai env) args b m 2 tr1)"
  define tr3 where "tr3 = snd (attempt_body (ai env) args b m 3 tr2)"
  define tr4 where "tr4 = snd (attempt_body (ai env) args b m 4 tr3)"
  note defs = env_def args_def b_def m_def tr0_def tr1_def tr2_def tr3_def tr4_def
  have "fst (generatePlate_setup env args) = Inr sample_image"
    unfolding defs by code_simp
  then have s: "generatePlate_setup env args = (Inr sample_image, tr0)"
    unfolding tr0_def by (rule pair_from_fst)
  have "fst (attempt_body (ai env) args b m 1 tr0) = Unverified ''data:image/png;base64,RDE=''"
    unfolding defs by code_simp
  then have a1: "attempt_body (ai env) args (split_second sample_image)
      (mime_or sample_image ''image/jpeg'') 1 tr0 = (Unverified ''data:image/png;base64,RDE='', tr1)"
    unfolding tr1_def b_def m_def by (rule pair_from_fst)
  have "fst (attempt_body (ai env) args b m 2 tr1) = Unverified ''data:image/png;base64,RDI=''"
    unfolding defs by code_simp
  then have a2: "attempt_body (ai env) args (split_second sample_image)
      (mime_or sample_image ''image/jpeg'') 2 tr1 = (Unverified ''data:image/png;base64,RDI='', tr2)"
    unfolding tr2_def b_def m_def by (rule pair_from_fst)
  have "fst (attempt_body (ai env) args b m 3 tr2) = Unverified ''data:image/png;base64,RDM=''"
    unfolding defs by code_simp
  then have a3: "attempt_body (ai env) args (split_second sample_image)
      (mime_or sample_image ''image/jpeg'') 3 tr2 = (Unverified ''data:image/png;base64,RDM='', tr3)"
    unfolding tr3_def b_def m_def by (rule pair_from_fst)
  have "fst (attempt_body (ai env) args b m 4 tr3) = Unverified ''data:image/png;base64,RDQ=''"
    unfolding defs by code_simp
  then have a4: "attempt_body (ai env) args (split_second sample_image)
      (mime_or sample_image ''image/jpeg'') 4 tr3 = (Unverified ''data:image/png;base64,RDQ='', tr4)"
    unfolding tr4_def b_def m_def by (rule pair_from_fst)
  from generatePlate_best_effort_last [OF s a1 a2 a3 a4] show ?thesis
    unfolding env_def args_def by simp
qed

text \<open>
  C5, as amended. When the loop is entered and none of the four attempts produces an
  image, every attempt captures an error and \<open>generatePlate\<close> raises an error and returns no
  image; the message of that error is the message of the error captured in attempt 4 when
  that message is present and not empty, and
  \<open>Failed to generate valid image after multiple attempts\<close> otherwise.
\<close>

theorem generatePlate_exhausted:
  assumes "generatePlate_setup env args = (Inr p, tr0)"
    and "attempt_body (ai env) args (split_second p) (mime_or p ''image/jpeg'') 1 tr0 = (Failed e1, tr1)"
    and "attempt_body (ai env) args (split_second p) (mime_or p ''image/jpeg'') 2 tr1 = (Failed e2, tr2)"
    and "attempt_body (ai env) args (split_second p) (mime_or p ''image/jpeg'') 3 tr2 = (Failed e3, tr3)"
    and "attempt_body (ai env) args (split_second p) (mime_or p ''image/jpeg'') 4 tr3 = (Failed e4, tr4)"
  shows "generatePlate env args =
           (Inl (Thrown (Some (case message e4 of
                                 None \<Rightarrow> ''Failed to generate valid image after multiple attempts''
                               | Some msg \<Rightarrow>
                                   if msg \<noteq> [] then msg
                                   else ''Failed to generate valid image after multiple attempts''))),
            tr4)"
proof -
  let ?loop = "retry_loop (ai env) args (split_second p) (mime_or p ''image/jpeg'')"
  have "?loop 1 [] None tr0 = ?loop 2 [] (Some e1) tr1"
    using retry_loop_Failed [OF _ assms(2)] by (simp add: MAX_RETRIES_def eval_nat_numeral)
  also have "\<dots> = ?loop 3 [] (Some e2) tr2"
    using retry_loop_Failed [OF _ assms(3)] by (simp add: MAX_RETRIES_def eval_nat_numeral)
  also have "\<dots> = ?loop 4 [] (Some e3) tr3"
    using retry_loop_Failed [OF _ assms(4)] by (simp add: MAX_RETRIES_def eval_nat_numeral)
  also have "\<dots> = ?loop 5 [] (Some e4) tr4"
    using retry_loop_Failed [OF _ assms(5)] by (simp add: MAX_RETRIES_def eval_nat_numeral)
  also have "\<dots> = (Inl (Thrown (Some (final_message (Some e4)))), tr4)"
    by (simp add: retry_loop_exhausted MAX_RETRIES_def)
  finally show ?thesis using assms(1)
    by (simp add: generatePlate_def final_message_def exhausted_message_def split: option.splits)
qed

theorem generatePlate_exhausted_witness:
  "fst (generatePlate (sample_env (rejecting (Thrown (Some ''quota exceeded'')))) (sample_args Replace ''ABC1234''))
     = Inl (Thrown (Some ''quota exceeded''))"
proof -
  define env where "env = sample_env (rejecting (Thrown (Some ''quota exceeded'')))"
  define args where "args = sample_args Replace ''ABC1234''"
  define b where "b = split_second sample_image"
  define m where "m = mime_or sample_image ''image/jpeg''"
  define tr0 where "tr0 = snd (generatePlate_setup env args)"
  define tr1 where "tr1 = snd (attempt_body (ai env) args b m 1 tr0)"
  define tr2 where "tr2 = snd (attempt_body (ai env) args b m 2 tr1)"
  define tr3 where "tr3 = snd (attempt_body (ai env) args b m 3 tr2)"
  define tr4 where "tr4 = snd (attempt_body (ai env) args b m 4 tr3)"
  note defs = env_def args_def b_def m_def tr0_def tr1_def tr2_def tr3_def tr4_def
  have "fst (generatePlate_setup env args) = Inr sample_image"
    unfolding defs by code_simp
  then have s: "generatePlate_setup env args = (Inr sample_image, tr0)"
    unfolding tr0_def by (rule pair_from_fst)
  have "fst (attempt_body (ai env) args b m 1 tr0) = Failed (Thrown (Some ''quota exceeded''))"
    unfolding defs by code_simp
  then have a1: "attempt_body (ai env) args (split_second sample_image)
      (mime_or sample_image ''image/jpeg'') 1 tr0 = (Failed (Thrown (Some ''quota exceeded'')), tr1)"
    unfolding tr1_def b_def m_def by (rule pair_from_fst)
  have "fst (attempt_body (ai env) args b m 2 tr1) = Failed (Thrown (Some ''quota exceeded''))"
    unfolding defs by code_simp
  then have a2: "attempt_body (ai env) args (split_second sample_image)
      (mime_or sample_image ''image/jpeg'') 2 tr1 = (Failed (Thrown (Some ''quota exceeded'')), tr2)"
    unfolding tr2_def b_def m_def by (rule pair_from_fst)
  have "fst (attempt_body (ai env) args b m 3 tr2) = Failed (Thrown (Some ''quota exceeded''))"
    unfolding defs by code_simp
  then have a3: "attempt_body (ai env) args (split_second sample_image)
      (mime_or sample_image ''image/jpeg'') 3 tr2 = (Failed (Thrown (Some ''quota exceeded'')), tr3)"
    unfolding tr3_def b_def m_def by (rule pair_from_fst)
  have "fst (attempt_body (ai env) args b m 4 tr3) = Failed (Thrown (Some ''quota exceeded''))"
    unfolding defs by code_simp
  then have a4: "attempt_body (ai env) args (split_second sample_image)
      (mime_or sample_image ''image/jpeg'') 4 tr3 = (Failed (Thrown (Some ''quota exceeded'')), tr4)"
    unfolding tr4_def b_def m_def by (rule pair_from_fst)
  from generatePlate_exhausted [OF s a1 a2 a3 a4] show ?thesis
    unfolding env_def args_def by simp
qed

text \<open>
  C5 as claimed fails when the captured error has an empty message: with a service that
  rejects each of the four generation calls with such an error, the error raised carries the
  generic message and not the captured one.
\<close>

theorem generatePlate_exhausted_claimed_counterexample:
  "calls (snd (generatePlate (sample_env (rejecting (Thrown (Some [])))) (sample_args Replace ''ABC1234'')))
     = replicate 4 (Call (generation_request (sample_args Replace ''ABC1234'') (Some ''QUJD'') ''image/jpeg'')
                         (Throws (Thrown (Some [])))) \<and>
   fst (generatePlate (sample_env (rejecting (Thrown (Some [])))) (sample_args Replace ''ABC1234''))
     = Inl (Thrown (Some ''Failed to generate valid image after multiple attempts''))"
  by code_simp

section \<open>The media type of the result\<close>

lemma first_inline_image_png: "first_inline_image ps \<noteq> [] \<Longrightarrow> png_data_uri (first_inline_image ps)"
  by (induction ps) (auto simp: png_data_uri_def split: option.splits)

lemma extract_image_png: "extract_image r \<noteq> [] \<Longrightarrow> png_data_uri (extract_image r)"
  by (auto simp: extract_image_def first_inline_image_png split: option.splits)

lemma match_mime_png: "png_data_uri u \<Longrightarrow> match_mime u = Some ''image/png''"
  by (auto simp: png_data_uri_def match_here_def)

lemma retry_loop_png:
  "retry_loop svc args b m k img err tr = (Inr u, tr') \<Longrightarrow> img = [] \<or> png_data_uri img \<Longrightarrow>
     png_data_uri u"
proof (induction k img err tr rule: retry_loop_cases [where svc = svc and args = args and b = b and m = m])
  case (exhausted k img err tr)
  then show ?case by (auto simp: retry_loop_exhausted split: if_splits)
next
  case (verified k img err tr v tr1)
  then have "u = v" by (simp add: retry_loop_Verified)
  with attempt_Verified [OF verified(2)] show ?case by (auto simp: extract_image_png)
next
  case (unverified k img err tr v tr1)
  from attempt_Unverified [OF unverified(2)] have "png_data_uri v" by (auto simp: extract_image_png)
  with unverified show ?case by (simp add: retry_loop_Unverified)
next
  case (failed k img err tr e tr1)
  then show ?case by (simp add: retry_loop_Failed)
qed

text \<open>
  C9. Every image that \<open>generatePlate\<close> returns is \<open>data:image/png;base64,\<close> followed by
  a non-empty payload, so that its declared media type is \<open>image/png\<close>, whatever media type
  the parts of the model's responses declare.
\<close>

theorem generatePlate_returns_png:
  assumes "fst (generatePlate env args) = Inr img"
  shows "(\<exists>b. b \<noteq> [] \<and> img = ''data:image/png;base64,'' @ b) \<and> match_mime img = Some ''image/png''"
proof -
  obtain r tr where pre: "generatePlate_setup env args = (r, tr)"
    by (cases "generatePlate_setup env args") blast
  with assms obtain p where r: "r = Inr p"
    by (cases r) (auto simp: generatePlate_def)
  obtain res tr' where loop:
    "retry_loop (ai env) args (split_second p) (mime_or p ''image/jpeg'') 1 [] None tr = (res, tr')"
    by (cases "retry_loop (ai env) args (split_second p) (mime_or p ''image/jpeg'') 1 [] None tr") blast
  with assms pre r have "res = Inr img" by (simp add: generatePlate_def)
  with loop have "png_data_uri img" by (auto dest: retry_loop_png)
  then show ?thesis using match_mime_png [of img] by (simp add: png_data_uri_def)
qed

theorem generatePlate_returns_png_witness:
  "fst (generatePlate (sample_env never_verified) (sample_args Replace ''ABC1234'')) = Inr ''data:image/png;base64,RDQ=''
   \<and> match_mime ''data:image/png;base64,RDQ='' = Some ''image/png''"
proof -
  have run: "fst (generatePlate (sample_env never_verified) (sample_args Replace ''ABC1234'')) = Inr ''data:image/png;base64,RDQ=''"
    by code_simp
  from generatePlate_returns_png [OF run] run show ?thesis by simp
qed

section \<open>Short circuit on a verified attempt\<close>

lemma ends_verified_prepend:
  assumes "ends_verified pn res new" "\<forall>e\<in>set ys. \<not> verification_passed pn e"
  shows "ends_verified pn res (ys @ new)"
proof -
  from assms(1) obtain xs req r v where new: "new = xs @ [Call req (Returns r), v]"
    and rest: "is_generation_call (Call req (Returns r))"
      "\<not> verification_passed pn (Call req (Returns r))"
      "\<forall>e\<in>set xs. \<not> verification_passed pn e"
      "extract_image r \<noteq> []" "res = Inr (extract_image r)"
    unfolding ends_verified_def by blast
  from new have "ys @ new = (ys @ xs) @ [Call req (Returns r), v]" by simp
  moreover from rest(3) assms(2) have "\<forall>e\<in>set (ys @ xs). \<not> verification_passed pn e" by auto
  ultimately show ?thesis using rest unfolding ends_verified_def by blast
qed

lemma retry_loop_trace:
  "retry_loop svc args b m k img err tr = (res, tr') \<Longrightarrow>
     \<exists>new. calls tr' = calls tr @ new \<and>
       ((\<forall>e\<in>set new. \<not> verification_passed (plateNumber args) e) \<or>
        ends_verified (plateNumber args) res new)"
proof (induction k img err tr rule: retry_loop_cases [where svc = svc and args = args and b = b and m = m])
  case (exhausted k img err tr)
  then have "tr' = tr" by (auto simp: retry_loop_exhausted split: if_splits)
  then show ?case by simp
next
  case (verified k img err tr u tr1)
  then have res: "res = Inr u" "tr' = tr1" by (simp_all add: retry_loop_Verified)
  from attempt_Verified [OF verified(2)] obtain r vr where
    u: "u = extract_image r" "u \<noteq> []" and
    c: "calls tr1 = calls tr @ [Call (generation_request args b m) (Returns r), Call (verify_request u) vr]"
    by blast
  have "ends_verified (plateNumber args) res
          [Call (generation_request args b m) (Returns r), Call (verify_request u) vr]"
    unfolding ends_verified_def using u res
    by (intro exI [of _ "[]"] exI [of _ "generation_request args b m"] exI [of _ r]
          exI [of _ "Call (verify_request u) vr"]) simp
  with c res show ?case by blast
next
  case (unverified k img err tr u tr1)
  from attempt_Unverified [OF unverified(2)] obtain r vr where
    c: "calls tr1 = calls tr @ [Call (generation_request args b m) (Returns r), Call (verify_request u) vr]"
    and nv: "\<not> verification_passed (plateNumber args) (Call (verify_request u) vr)"
    by blast
  let ?ys = "[Call (generation_request args b m) (Returns r), Call (verify_request u) vr]"
  have ys: "\<forall>e\<in>set ?ys. \<not> verification_passed (plateNumber args) e" using nv by simp
  from unverified have "retry_loop svc args b m (k + 1) u err tr1 = (res, tr')"
    by (simp add: retry_loop_Unverified)
  from unverified(3) [OF this] obtain new where
    n: "calls tr' = calls tr1 @ new" and
    d: "(\<forall>e\<in>set new. \<not> verification_passed (plateNumber args) e) \<or>
        ends_verified (plateNumber args) res new"
    by blast
  from n c have "calls tr' = calls tr @ (?ys @ new)" by simp
  moreover from d ys have "(\<forall>e\<in>set (?ys @ new). \<not> verification_passed (plateNumber args) e) \<or>
        ends_verified (plateNumber args) res (?ys @ new)"
    using ends_verified_prepend [of "plateNumber args" res new ?ys] by auto
  ultimately show ?case by blast
next
  case (failed k img err tr e tr1)
  from attempt_Failed [OF failed(2)] obtain gr where
    c: "calls tr1 = calls tr @ [Call (generation_request args b m) gr]"
    by blast
  let ?ys = "[Call (generation_request args b m) gr]"
  have ys: "\<forall>e\<in>set ?ys. \<not> verification_passed (plateNumber args) e" by simp
  from failed have "retry_loop svc args b m (k + 1) img (Some e) tr1 = (res, tr')"
    by (simp add: retry_loop_Failed)
  from failed(3) [OF this] obtain new where
    n: "calls tr' = calls tr1 @ new" and
    d: "(\<forall>e\<in>set new. \<not> verification_passed (plateNumber args) e) \<or>
        ends_verified (plateNumber args) res new"
    by blast
  from n c have "calls tr' = calls tr @ (?ys @ new)" by simp
  moreover from d ys have "(\<forall>e\<in>set (?ys @ new). \<not> verification_passed (plateNumber args) e) \<or>
        ends_verified (plateNumber args) res (?ys @ new)"
    using ends_verified_prepend [of "plateNumber args" res new ?ys] by auto
  ultimately show ?case by blast
qed

lemma setup_calls_not_passed:
  "\<forall>e\<in>set (calls (snd (generatePlate_setup env args))). \<not> verification_passed pn e"
  by (simp add: generatePlate_setup_def Let_def split_beta checkForExistingPlate_trace
        split: sum.splits)

lemma snoc_decompose:
  assumes "ys @ [v] = pre @ ev # post" "\<forall>e\<in>set ys. \<not> P e" "P ev"
  shows "post = [] \<and> pre = ys \<and> ev = v"
proof (cases post rule: rev_cases)
  case Nil
  with assms(1) show ?thesis by simp
next
  case (snoc post' l)
  with assms(1) have "ys @ [v] = (pre @ ev # post') @ [l]" by simp
  then have "ys = pre @ ev # post'" by (simp only: append1_eq_conv)
  with assms(2,3) show ?thesis by simp
qed

lemma generatePlate_trace:
  "(\<forall>e\<in>set (calls (snd (generatePlate env args))). \<not> verification_passed (plateNumber args) e) \<or>
   (\<exists>ys v req r. calls (snd (generatePlate env args)) = ys @ [Call req (Returns r), v] \<and>
       is_generation_call (Call req (Returns r)) \<and>
       (\<forall>e\<in>set (ys @ [Call req (Returns r)]). \<not> verification_passed (plateNumber args) e) \<and>
       extract_image r \<noteq> [] \<and>
       fst (generatePlate env args) = Inr (extract_image r))"
proof -
  obtain r0 tr0 where pre: "generatePlate_setup env args = (r0, tr0)"
    by (cases "generatePlate_setup env args") blast
  with setup_calls_not_passed [of env args "plateNumber args"]
  have clean: "\<forall>e\<in>set (calls tr0). \<not> verification_passed (plateNumber args) e" by simp
  show ?thesis
  proof (cases r0)
    case (Inl e)
    with pre clean show ?thesis by (simp add: generatePlate_def)
  next
    case (Inr p)
    obtain res tr' where loop:
      "retry_loop (ai env) args (split_second p) (mime_or p ''image/jpeg'') 1 [] None tr0 = (res, tr')"
      by (cases "retry_loop (ai env) args (split_second p) (mime_or p ''image/jpeg'') 1 [] None tr0") blast
    with pre Inr have g: "generatePlate env args = (res, tr')" by (simp add: generatePlate_def)
    from retry_loop_trace [OF loop] obtain new where
      n: "calls tr' = calls tr0 @ new" and
      d: "(\<forall>e\<in>set new. \<not> verification_passed (plateNumber args) e) \<or>
          ends_verified (plateNumber args) res new"
      by blast
    from d show ?thesis
    proof
      assume "\<forall>e\<in>set new. \<not> verification_passed (plateNumber args) e"
      with clean n g show ?thesis by auto
    next
      assume "ends_verified (plateNumber args) res new"
      then obtain xs req r v where new: "new = xs @ [Call req (Returns r), v]"
        and rest: "is_generation_call (Call req (Returns r))"
          "\<not> verification_passed (plateNumber args) (Call req (Returns r))"
          "\<forall>e\<in>set xs. \<not> verification_passed (plateNumber args) e"
          "extract_image r \<noteq> []" "res = Inr (extract_image r)"
        unfolding ends_verified_def by blast
      from n new have "calls tr' = (calls tr0 @ xs) @ [Call req (Returns r), v]" by simp
      moreover from clean rest
      have "\<forall>e\<in>set ((calls tr0 @ xs) @ [Call req (Returns r)]). \<not> verification_passed (plateNumber args) e"
        by auto
      ultimately show ?thesis using rest g by (intro disjI2 exI [of _ "calls tr0 @ xs"] exI [of _ v] exI [of _ req] exI [of _ r]) simp
    qed
  qed
qed

lemma generatePlate_passed_last:
  assumes "calls (snd (generatePlate env args)) = pre @ ev # post"
    and "verification_passed (plateNumber args) ev"
  shows "post = [] \<and>
         (\<exists>pre' req r. pre = pre' @ [Call req (Returns r)] \<and>
            is_generation_call (Call req (Returns r)) \<and>
            extract_image r \<noteq> [] \<and>
            fst (generatePlate env args) = Inr (extract_image r))"
proof -
  from generatePlate_trace [of env args] show ?thesis
  proof
    assume "\<forall>e\<in>set (calls (snd (generatePlate env args))). \<not> verification_passed (plateNumber args) e"
    with assms show ?thesis by simp
  next
    assume "\<exists>ys v req r. calls (snd (generatePlate env args)) = ys @ [Call req (Returns r), v] \<and>
       is_generation_call (Call req (Returns r)) \<and>
       (\<forall>e\<in>set (ys @ [Call req (Returns r)]). \<not> verification_passed (plateNumber args) e) \<and>
       extract_image r \<noteq> [] \<and>
       fst (generatePlate env args) = Inr (extract_image r)"
    then obtain ys v req r where
      c: "calls (snd (generatePlate env args)) = ys @ [Call req (Returns r), v]" and
      rest: "is_generation_call (Call req (Returns r))"
        "\<forall>e\<in>set (ys @ [Call req (Returns r)]). \<not> verification_passed (plateNumber args) e"
        "extract_image r \<noteq> []"
        "fst (generatePlate env args) = Inr (extract_image r)"
      by blast
    from c assms(1) have "(ys @ [Call req (Returns r)]) @ [v] = pre @ ev # post" by simp
    from snoc_decompose [OF this rest(2) assms(2)]
    have "post = []" "pre = ys @ [Call req (Returns r)]" by simp_all
    with rest show ?thesis by blast
  qed
qed

text \<open>
  C7. In the calls of an invocation of \<open>generatePlate\<close>, a verification call that passes
  is the last call: no generation or verification call follows it. The call before it is
  the generation call of the same attempt, and \<open>generatePlate\<close> returns the image which that
  call produced.
\<close>

theorem generatePlate_short_circuit:
  assumes "calls (snd (generatePlate env args)) = pre @ ev # post"
    and "verification_passed (plateNumber args) ev"
  shows "post = [] \<and>
         (\<exists>pre' req r. pre = pre' @ [Call req (Returns r)] \<and>
            is_generation_call (Call req (Returns r)) \<and>
            extract_image r \<noteq> [] \<and>
            fst (generatePlate env args) = Inr (extract_image r))"
  using assms by (rule generatePlate_passed_last)

theorem generatePlate_short_circuit_witness:
  "verification_passed ''ABC1234''
     (calls (snd (generatePlate (sample_env second_verified) (sample_args Replace ''ABC1234''))) ! 3) \<and>
   drop 4 (calls (snd (generatePlate (sample_env second_verified) (sample_args Replace ''ABC1234'')))) = [] \<and>
   fst (generatePlate (sample_env second_verified) (sample_args Replace ''ABC1234''))
     = Inr ''data:image/png;base64,RDI=''"
proof -
  define env where "env = sample_env second_verified"
  define args where "args = sample_args Replace ''ABC1234''"
  define c where "c = calls (snd (generatePlate env args))"
  have split: "calls (snd (generatePlate env args)) = take 3 c @ (c ! 3) # drop 4 c"
    unfolding c_def env_def args_def by code_simp
  have passed: "verification_passed (plateNumber args) (c ! 3)"
    unfolding c_def env_def args_def by code_simp
  have run: "fst (generatePlate env args) = Inr ''data:image/png;base64,RDI=''"
    unfolding env_def args_def by code_simp
  have pn: "plateNumber args = ''ABC1234''"
    unfolding args_def by code_simp
  from generatePlate_short_circuit [OF split passed] have "drop 4 c = []" by blast
  with passed run pn show ?thesis unfolding c_def env_def args_def by simp
qed



end
